theory Spec2Isabelle
  imports Complex_Main "HOL-Library.Word"
begin

section \<open>Data model of ChromosomePatch.py\<close>

text \<open>
  The module keeps its data in NumPy arrays and calls OpenCV, scikit-image, SciPy and the
  YOLO detector. Those libraries are not part of the module. Routines whose results the
  module only passes on (Gaussian blur, contour tracing, the point-to-polygon distance, the
  detector, mask resizing) are parameters of the functions below; the routines of the
  candidate extractor are modelled after the specification's description of them.
  Floating-point numbers are idealised as reals: the comparisons of the module are exact on
  finite floats.
  The errors are Python's, but for \<open>UnsupportedShape\<close>: the image routines are modelled on
  two-dimensional arrays only, and the model reports any other shape with it.
\<close>

datatype error =
    IndexError
  | ValueError
  | KeyError
  | AssertionError string
  | UnsupportedShape

text \<open>\<^verbatim>\<open>Cell.CellType\<close>: \<^verbatim>\<open>EXPLODED = 0\<close>, \<^verbatim>\<open>WHOLE = 1\<close>.\<close>

datatype CellType = EXPLODED | WHOLE

text \<open>A chromosome point is a centroid \<open>(row, col)\<close>.\<close>

type_synonym point = "real \<times> real"

record 'ma Cell =
  masked_area :: 'ma
  cell_type :: CellType
  red_chromosomes :: "point list"
  green_chromosomes :: "point list"

definition add_red_chromosome :: "'ma Cell \<Rightarrow> point \<Rightarrow> 'ma Cell" where
  "add_red_chromosome cell red_chromosome =
     cell\<lparr>red_chromosomes := red_chromosomes cell @ [red_chromosome]\<rparr>"

definition add_green_chromosome :: "'ma Cell \<Rightarrow> point \<Rightarrow> 'ma Cell" where
  "add_green_chromosome cell green_chromosome =
     cell\<lparr>green_chromosomes := green_chromosomes cell @ [green_chromosome]\<rparr>"

text \<open>
  The detector: its image, its cell registry, and the two class-level counters
  \<^verbatim>\<open>RedChromosome\<close> and \<^verbatim>\<open>GreenChromosome\<close>, which one detector reads and writes like fields.
\<close>

record ('img, 'ma) detector =
  image :: 'img
  cells :: "'ma Cell list"
  RedChromosome :: int
  GreenChromosome :: int

section \<open>The chromosome assigner\<close>

text \<open>
  The inner loop of \<^verbatim>\<open>__filter_chromosomes\<close> for one candidate: it walks the cells that are
  left, with the candidate's accepted flag, and returns the flag, the cells (one of them
  possibly extended) and the counters. \<open>findContours\<close> stands for
  \<^verbatim>\<open>imutils.grab_contours(cv2.findContours(mask, RETR_TREE, CHAIN_APPROX_NONE))\<close> on the
  inverted first mask channel of the cell; taking element 0 of an empty result raises
  IndexError. \<open>pointPolygonTest\<close> is the signed distance, called with the point reversed to
  \<open>(col, row)\<close>. The \<^verbatim>\<open>break\<close> is the branch that does not recurse.
\<close>

fun filter_cells ::
  "('ma \<Rightarrow> 'c list) \<Rightarrow> ('c \<Rightarrow> point \<Rightarrow> real) \<Rightarrow> point \<Rightarrow> string \<Rightarrow> real \<Rightarrow>
   bool \<Rightarrow> 'ma Cell list \<Rightarrow> int \<times> int \<Rightarrow> error + (bool \<times> 'ma Cell list \<times> (int \<times> int))" where
  "filter_cells findContours pointPolygonTest candidate chromosome_type closeness
       acc [] counters = Inr (acc, [], counters)"
| "filter_cells findContours pointPolygonTest candidate chromosome_type closeness
       acc (cell # rest) counters =
     (case findContours (masked_area cell) of
        [] \<Rightarrow> Inl IndexError
      | contour # _ \<Rightarrow>
          (let distance = pointPolygonTest contour (snd candidate, fst candidate);
               inside_cell = (distance > 0);
               almost_on_cell_border = (distance \<le> closeness)
           in if \<not> acc \<and> inside_cell \<and> \<not> almost_on_cell_border then
                (if chromosome_type = ''red'' then
                   Inr (True, add_red_chromosome cell candidate # rest,
                        (fst counters + 1, snd counters))
                 else if chromosome_type = ''green'' then
                   Inr (True, add_green_chromosome cell candidate # rest,
                        (fst counters, snd counters + 1))
                 else Inr (True, cell # rest, counters))
              else
                (case filter_cells findContours pointPolygonTest candidate chromosome_type
                        closeness acc rest counters of
                   Inl e \<Rightarrow> Inl e
                 | Inr (acc', rest', counters') \<Rightarrow> Inr (acc', cell # rest', counters'))))"

text \<open>
  The outer loop over \<^verbatim>\<open>enumerate(chromosome_candidates)\<close>. \<open>accepted\<close> is the boolean array
  of the source; the counters are the pair (RedChromosome, GreenChromosome).
\<close>

fun filter_loop ::
  "('ma \<Rightarrow> 'c list) \<Rightarrow> ('c \<Rightarrow> point \<Rightarrow> real) \<Rightarrow> string \<Rightarrow> real \<Rightarrow> nat \<Rightarrow> point list \<Rightarrow>
   bool list \<Rightarrow> 'ma Cell list \<Rightarrow> int \<times> int \<Rightarrow> error + (bool list \<times> 'ma Cell list \<times> (int \<times> int))" where
  "filter_loop findContours pointPolygonTest chromosome_type closeness idx [] accepted cs
       counters = Inr (accepted, cs, counters)"
| "filter_loop findContours pointPolygonTest chromosome_type closeness idx (candidate # later)
       accepted cs counters =
     (case filter_cells findContours pointPolygonTest candidate chromosome_type closeness
             (accepted ! idx) cs counters of
        Inl e \<Rightarrow> Inl e
      | Inr (acc', cs', counters') \<Rightarrow>
          filter_loop findContours pointPolygonTest chromosome_type closeness (Suc idx) later
            (accepted[idx := acc']) cs' counters')"

text \<open>
  \<^verbatim>\<open>__filter_chromosomes\<close>. The source returns nothing; the model returns the final
  \<open>accepted\<close> array next to the updated detector, so that the number of accepted candidates
  can be stated. An exception leaves the model with the error alone.
\<close>

definition filter_chromosomes ::
  "('ma \<Rightarrow> 'c list) \<Rightarrow> ('c \<Rightarrow> point \<Rightarrow> real) \<Rightarrow> ('img, 'ma) detector \<Rightarrow> point list \<Rightarrow> string \<Rightarrow>
   real \<Rightarrow> error + (bool list \<times> ('img, 'ma) detector)" where
  "filter_chromosomes findContours pointPolygonTest self chromosome_candidates
       chromosome_type closeness =
     (let accepted = replicate (length chromosome_candidates) False
      in case filter_loop findContours pointPolygonTest chromosome_type closeness 0
                chromosome_candidates accepted (cells self)
                (RedChromosome self, GreenChromosome self) of
           Inl e \<Rightarrow> Inl e
         | Inr (accepted', cs', counters') \<Rightarrow>
             Inr (accepted', self\<lparr>cells := cs', RedChromosome := fst counters',
                                  GreenChromosome := snd counters'\<rparr>))"

section \<open>Specification-level notions for the assigner\<close>

text \<open>
  The distance the assigner computes for a cell and a point: the signed distance from the
  point, in \<open>(col, row)\<close> order, to the first contour of the cell's mask. There is none when
  the mask has no contour.
\<close>

definition contour_distance ::
  "('ma \<Rightarrow> 'c list) \<Rightarrow> ('c \<Rightarrow> point \<Rightarrow> real) \<Rightarrow> 'ma \<Rightarrow> point \<Rightarrow> real option" where
  "contour_distance findContours pointPolygonTest area p =
     (case findContours area of
        [] \<Rightarrow> None
      | contour # _ \<Rightarrow> Some (pointPolygonTest contour (snd p, fst p)))"

text \<open>
  Eligibility in the words of the specification: the distance is positive and greater
  than the closeness threshold.
\<close>

definition eligible ::
  "('ma \<Rightarrow> 'c list) \<Rightarrow> ('c \<Rightarrow> point \<Rightarrow> real) \<Rightarrow> real \<Rightarrow> point \<Rightarrow> 'ma \<Rightarrow> bool" where
  "eligible findContours pointPolygonTest closeness p area =
     (case contour_distance findContours pointPolygonTest area p of
        None \<Rightarrow> False
      | Some d \<Rightarrow> d > 0 \<and> d > closeness)"

fun first_index :: "('a \<Rightarrow> bool) \<Rightarrow> 'a list \<Rightarrow> nat option" where
  "first_index P [] = None"
| "first_index P (x # xs) = (if P x then Some 0 else map_option Suc (first_index P xs))"

text \<open>The owner of a point: the first cell in registry order for which it is eligible.\<close>

definition owner ::
  "('ma \<Rightarrow> 'c list) \<Rightarrow> ('c \<Rightarrow> point \<Rightarrow> real) \<Rightarrow> real \<Rightarrow> 'ma Cell list \<Rightarrow> point \<Rightarrow> nat option" where
  "owner findContours pointPolygonTest closeness cs p =
     first_index (eligible findContours pointPolygonTest closeness p) (map masked_area cs)"

text \<open>The chromosome list of a channel.\<close>

definition chromosomes_of :: "string \<Rightarrow> 'ma Cell \<Rightarrow> point list" where
  "chromosomes_of chromosome_type cell =
     (if chromosome_type = ''red'' then red_chromosomes cell
      else if chromosome_type = ''green'' then green_chromosomes cell
      else [])"

definition total_chromosomes :: "string \<Rightarrow> 'ma Cell list \<Rightarrow> nat" where
  "total_chromosomes chromosome_type cs =
     sum_list (map (\<lambda>cell. length (chromosomes_of chromosome_type cell)) cs)"

definition count_accepted :: "bool list \<Rightarrow> nat" where
  "count_accepted accepted = length (filter (\<lambda>b. b) accepted)"

text \<open>
  Abbreviations used to state what the loops do: the cell after one or several points are
  recorded for a channel, and the counters after one or several increments.
\<close>

definition record_into :: "string \<Rightarrow> point \<Rightarrow> 'ma Cell \<Rightarrow> 'ma Cell" where
  "record_into ctype p cell = (if ctype = ''red'' then add_red_chromosome cell p
     else if ctype = ''green'' then add_green_chromosome cell p else cell)"

definition bump :: "string \<Rightarrow> int \<times> int \<Rightarrow> int \<times> int" where
  "bump ctype ctr = (if ctype = ''red'' then (fst ctr + 1, snd ctr)
     else if ctype = ''green'' then (fst ctr, snd ctr + 1) else ctr)"

definition record_all :: "string \<Rightarrow> point list \<Rightarrow> 'ma Cell \<Rightarrow> 'ma Cell" where
  "record_all ctype ps cell = (if ctype = ''red'' then cell\<lparr>red_chromosomes := red_chromosomes cell @ ps\<rparr>
     else if ctype = ''green'' then cell\<lparr>green_chromosomes := green_chromosomes cell @ ps\<rparr> else cell)"

definition add_count :: "string \<Rightarrow> nat \<Rightarrow> int \<times> int \<Rightarrow> int \<times> int" where
  "add_count ctype n ctr = (if ctype = ''red'' then (fst ctr + int n, snd ctr)
     else if ctype = ''green'' then (fst ctr, snd ctr + int n) else ctr)"

section \<open>Arrays and the unsharp mask\<close>

text \<open>
  A NumPy array is its shape and its elements in row-major order; it is well formed when
  the number of elements is the product of the shape. Pixels are \<^verbatim>\<open>uint8\<close>: arithmetic on
  them wraps modulo 256.
\<close>

type_synonym u8 = "8 word"

record 'a ndarray =
  shape :: "nat list"
  data :: "'a list"


text \<open>\<^verbatim>\<open>ndarray.round()\<close> rounds to the nearest integer, halves to the even neighbour.\<close>

definition np_round :: "real \<Rightarrow> int" where
  "np_round x =
     (let f = \<lfloor>x\<rfloor>; d = x - of_int f
      in if d < 1 / 2 then f
         else if 1 / 2 < d then f + 1
         else if even f then f else f + 1)"

text \<open>
  \<^verbatim>\<open>astype(np.uint8)\<close> of a float drops the fraction (towards zero). The results of the
  module are in range; outside the range the model wraps.
\<close>

definition astype_uint8 :: "real \<Rightarrow> u8" where
  "astype_uint8 x = word_of_int (if 0 \<le> x then \<lfloor>x\<rfloor> else \<lceil>x\<rceil>)"

text \<open>\<^verbatim>\<open>np.copyto(dst, src, where=wh)\<close> on the elements.\<close>

fun copyto :: "'a list \<Rightarrow> 'a list \<Rightarrow> bool list \<Rightarrow> 'a list" where
  "copyto (d # dst) (s # src) (w # wh) = (if w then s else d) # copyto dst src wh"
| "copyto dst src wh = dst"

text \<open>
  \<^verbatim>\<open>__unsharp_mask\<close>. \<open>GaussianBlur\<close> is \<^verbatim>\<open>cv2.GaussianBlur\<close>; its result has the shape and
  the element type of the image. The sharpened combination is computed in floating point
  (exact for the amount 5.0 the module uses), clamped, rounded and cast. The low-contrast
  mask is computed from \<^verbatim>\<open>image - blurred\<close>, a difference of two \<^verbatim>\<open>uint8\<close> arrays, hence itself
  \<^verbatim>\<open>uint8\<close>; \<^verbatim>\<open>np.absolute\<close> of an unsigned array is the array.
\<close>

definition unsharp_mask ::
  "(u8 ndarray \<Rightarrow> nat \<times> nat \<Rightarrow> real \<Rightarrow> u8 ndarray) \<Rightarrow> u8 ndarray \<Rightarrow> nat \<times> nat \<Rightarrow> real \<Rightarrow>
   real \<Rightarrow> int \<Rightarrow> u8 ndarray" where
  "unsharp_mask GaussianBlur img kernel_size sigma amount threshold =
     (let blurred = GaussianBlur img kernel_size sigma;
          sharpened = map2 (\<lambda>i b. (amount + 1) * real (unat i) - amount * real (unat b))
                        (data img) (data blurred);
          sharpened = map (\<lambda>x. max x 0) sharpened;
          sharpened = map (\<lambda>x. min x 255) sharpened;
          sharpened = map (\<lambda>x. astype_uint8 (of_int (np_round x))) sharpened
      in if threshold > 0 then
           (let low_contrast_mask = map2 (\<lambda>i b. uint (i - b) < threshold)
                                      (data img) (data blurred)
            in \<lparr>shape = shape img, data = copyto sharpened (data img) low_contrast_mask\<rparr>)
         else \<lparr>shape = shape img, data = sharpened\<rparr>)"

text \<open>
  The sharpened value of a pixel in the words of the specification:
  \<open>round (clamp ((amount + 1) * image - amount * blur, 0, 255))\<close>, before the cast.
\<close>

definition sharpened_value :: "real \<Rightarrow> u8 \<Rightarrow> u8 \<Rightarrow> int" where
  "sharpened_value amount i b =
     np_round (min (max ((amount + 1) * real (unat i) - amount * real (unat b)) 0) 255)"

section \<open>RGBA to RGB\<close>

text \<open>
  \<^verbatim>\<open>a[:, :, k]\<close> of an array with \<open>n\<close> pixels of \<open>ch\<close> channels each: element \<open>k\<close> of every
  pixel, in pixel order.
\<close>

definition channel_slice :: "nat \<Rightarrow> nat \<Rightarrow> nat \<Rightarrow> 'a list \<Rightarrow> 'a list" where
  "channel_slice n ch k xs = map (\<lambda>p. xs ! (p * ch + k)) [0..<n]"



section \<open>The cell registry builder\<close>

text \<open>
  One result of the detector: \<open>masks\<close> are the masks of \<^verbatim>\<open>prediction.masks.data\<close>, one per
  detection, and \<open>cls\<close> the class ids of \<^verbatim>\<open>prediction.boxes.cls\<close>.
\<close>

record 'm prediction =
  masks :: "'m list"
  cls :: "int list"

text \<open>\<^verbatim>\<open>Cell.CellType(int(cls))\<close>: the enumeration member with that value, or ValueError.\<close>

definition CellType_of :: "int \<Rightarrow> error + CellType" where
  "CellType_of v = (if v = 0 then Inr EXPLODED else if v = 1 then Inr WHOLE else Inl ValueError)"

text \<open>
  The loop over \<^verbatim>\<open>zip(masks, classes)\<close> of one prediction. \<open>mask_image\<close> stands for the lines
  that resize the mask to the image, repeat it on three channels and mask the image with it
  (\<^verbatim>\<open>np.ma.masked_where\<close> raises when the shapes differ).
\<close>

fun build_cells ::
  "('img \<Rightarrow> 'm \<Rightarrow> error + 'ma) \<Rightarrow> 'img \<Rightarrow> ('m \<times> int) list \<Rightarrow> 'ma Cell list \<Rightarrow>
   error + 'ma Cell list" where
  "build_cells mask_image img [] cs = Inr cs"
| "build_cells mask_image img ((m, c) # rest) cs =
     (case mask_image img m of
        Inl e \<Rightarrow> Inl e
      | Inr masked_image \<Rightarrow>
          (case CellType_of c of
             Inl e \<Rightarrow> Inl e
           | Inr t \<Rightarrow>
               build_cells mask_image img rest
                 (cs @ [\<lparr>masked_area = masked_image, cell_type = t,
                         red_chromosomes = [], green_chromosomes = []\<rparr>])))"

text \<open>The loop over the predictions.\<close>

fun build_registry ::
  "('img \<Rightarrow> 'm \<Rightarrow> error + 'ma) \<Rightarrow> 'img \<Rightarrow> 'm prediction list \<Rightarrow> 'ma Cell list \<Rightarrow>
   error + 'ma Cell list" where
  "build_registry mask_image img [] cs = Inr cs"
| "build_registry mask_image img (p # predictions) cs =
     (case build_cells mask_image img (zip (masks p) (cls p)) cs of
        Inl e \<Rightarrow> Inl e
      | Inr cs' \<Rightarrow> build_registry mask_image img predictions cs')"

text \<open>
  The counting loops at the end of \<^verbatim>\<open>find_cells\<close>. \<open>names\<close> is the detector's dictionary from
  class id to class name; a missing key raises KeyError.
\<close>

fun count_classes :: "(int \<rightharpoonup> string) \<Rightarrow> int list \<Rightarrow> nat \<Rightarrow> nat \<Rightarrow> error + (nat \<times> nat)" where
  "count_classes names [] number_whole number_explode = Inr (number_whole, number_explode)"
| "count_classes names (c # rest) number_whole number_explode =
     (case names c of
        None \<Rightarrow> Inl KeyError
      | Some name \<Rightarrow>
          (let number_whole = (if name = ''Whole cell'' then number_whole + 1 else number_whole);
               number_explode =
                 (if name = ''Explode cell'' then number_explode + 1 else number_explode)
           in count_classes names rest number_whole number_explode))"

fun count_predictions ::
  "(int \<rightharpoonup> string) \<Rightarrow> 'm prediction list \<Rightarrow> nat \<Rightarrow> nat \<Rightarrow> error + (nat \<times> nat)" where
  "count_predictions names [] number_whole number_explode = Inr (number_whole, number_explode)"
| "count_predictions names (r # predictions) number_whole number_explode =
     (case count_classes names (cls r) number_whole number_explode of
        Inl e \<Rightarrow> Inl e
      | Inr (number_whole', number_explode') \<Rightarrow>
          count_predictions names predictions number_whole' number_explode')"

text \<open>
  \<^verbatim>\<open>find_cells\<close>. \<open>predict\<close> is the detector, called with the image, the class filter
  \<open>[0, 1]\<close> and the confidence. The result is the pair \<open>(number_explode, number_whole)\<close> and
  the detector with its new registry.
\<close>

definition find_cells ::
  "('img \<Rightarrow> int list \<Rightarrow> real \<Rightarrow> 'm prediction list) \<Rightarrow> ('img \<Rightarrow> 'm \<Rightarrow> error + 'ma) \<Rightarrow>
   (int \<rightharpoonup> string) \<Rightarrow> ('img, 'ma) detector \<Rightarrow> real \<Rightarrow>
   error + ((nat \<times> nat) \<times> ('img, 'ma) detector)" where
  "find_cells predict mask_image names self confidence =
     (let cs = (if cells self \<noteq> [] then [] else cells self);
          predictions = predict (image self) [0, 1] confidence
      in case build_registry mask_image (image self) predictions cs of
           Inl e \<Rightarrow> Inl e
         | Inr cs' \<Rightarrow>
             (case count_predictions names predictions 0 0 of
                Inl e \<Rightarrow> Inl e
              | Inr (number_whole, number_explode) \<Rightarrow>
                  Inr ((number_explode, number_whole), self\<lparr>cells := cs'\<rparr>)))"

text \<open>The detections of a list of predictions, in the order the registry builder meets them.\<close>

definition detections :: "'m prediction list \<Rightarrow> ('m \<times> int) list" where
  "detections predictions = concat (map (\<lambda>p. zip (masks p) (cls p)) predictions)"

text \<open>A cell is the one built from a detection: its masked image, its class, empty lists.\<close>

definition built_from :: "('img \<Rightarrow> 'm \<Rightarrow> error + 'ma) \<Rightarrow> 'img \<Rightarrow> 'm \<times> int \<Rightarrow> 'ma Cell \<Rightarrow> bool" where
  "built_from mask_image img d cell =
     (mask_image img (fst d) = Inr (masked_area cell) \<and>
      CellType_of (snd d) = Inr (cell_type cell) \<and>
      red_chromosomes cell = [] \<and> green_chromosomes cell = [])"

section \<open>The candidate extractor\<close>

text \<open>
  \<^verbatim>\<open>a[..., k]\<close>: element \<open>k\<close> of the last axis. IndexError when the array has no axis or the
  last axis is too short.
\<close>

definition last_axis :: "nat \<Rightarrow> 'a ndarray \<Rightarrow> error + 'a ndarray" where
  "last_axis k a =
     (case rev (shape a) of
        [] \<Rightarrow> Inl IndexError
      | ch # lead \<Rightarrow>
          if k < ch
          then Inr \<lparr>shape = rev lead, data = channel_slice (prod_list lead) ch k (data a)\<rparr>
          else Inl IndexError)"

text \<open>The positions of an \<open>h\<close> by \<open>w\<close> array in row-major order, and the element at a position.\<close>

definition positions :: "nat \<Rightarrow> nat \<Rightarrow> (nat \<times> nat) list" where
  "positions h w = List.product [0..<h] [0..<w]"

definition elem_at :: "nat \<Rightarrow> 'a list \<Rightarrow> nat \<times> nat \<Rightarrow> 'a" where
  "elem_at w xs p = xs ! (fst p * w + snd p)"

text \<open>
  Modelled from the spec: \<^verbatim>\<open>cv2.threshold(src, thresh, maxval, cv2.THRESH_BINARY)\<close>, which is
  OpenCV's and not in the repository. A pixel above the cutoff becomes \<open>maxval\<close>, any other 0.
\<close>

definition cv2_threshold :: "u8 ndarray \<Rightarrow> int \<Rightarrow> int \<Rightarrow> u8 ndarray" where
  "cv2_threshold src thresh maxval =
     \<lparr>shape = shape src,
      data = map (\<lambda>x. if thresh < uint x then word_of_int maxval else 0) (data src)\<rparr>"

text \<open>
  Modelled from the spec: the 3 by 3 rectangular structuring element of
  \<^verbatim>\<open>cv2.getStructuringElement(cv2.MORPH_RECT, size)\<close>, OpenCV's and not in the repository: the
  positions that a rectangle of \<open>kh\<close> rows and \<open>kw\<close> columns, anchored at its centre, covers
  around \<open>(r, c)\<close> inside an \<open>h\<close> by \<open>w\<close> image.
\<close>

definition window :: "nat \<times> nat \<Rightarrow> nat \<Rightarrow> nat \<Rightarrow> nat \<times> nat \<Rightarrow> (nat \<times> nat) list" where
  "window ksize h w p =
     (let (kh, kw) = ksize; (r, c) = p
      in List.product [r - kh div 2 ..< min h (r + (kh - kh div 2))]
                      [c - kw div 2 ..< min w (c + (kw - kw div 2))])"

text \<open>
  Modelled from the spec: the dilation inside \<^verbatim>\<open>cv2.morphologyEx\<close>, OpenCV's and not in the
  repository: the maximum under the kernel; positions outside the image do not count.
\<close>

definition dilate :: "u8 ndarray \<Rightarrow> nat \<times> nat \<Rightarrow> nat \<Rightarrow> nat \<Rightarrow> u8 list" where
  "dilate src ksize h w =
     map (\<lambda>p. fold max (map (elem_at w (data src)) (window ksize h w p)) 0) (positions h w)"

text \<open>
  Modelled from the spec: the erosion inside \<^verbatim>\<open>cv2.morphologyEx\<close>, OpenCV's and not in the
  repository: the minimum under the kernel; positions outside the image do not count.
\<close>

definition erode :: "u8 ndarray \<Rightarrow> nat \<times> nat \<Rightarrow> nat \<Rightarrow> nat \<Rightarrow> u8 list" where
  "erode src ksize h w =
     map (\<lambda>p. fold min (map (elem_at w (data src)) (window ksize h w p)) 255) (positions h w)"

text \<open>
  Modelled from the spec: \<^verbatim>\<open>cv2.morphologyEx(src, cv2.MORPH_GRADIENT, kernel)\<close>, OpenCV's and
  not in the repository: the dilation minus the erosion.
\<close>

definition morphology_gradient :: "u8 ndarray \<Rightarrow> nat \<times> nat \<Rightarrow> error + u8 ndarray" where
  "morphology_gradient src ksize =
     (case shape src of
        [h, w] \<Rightarrow>
          Inr \<lparr>shape = [h, w],
               data = map2 (\<lambda>d e. d - e) (dilate src ksize h w) (erode src ksize h w)\<rparr>
      | _ \<Rightarrow> Inl UnsupportedShape)"

text \<open>
  Modelled from the spec: the connectivity of \<^verbatim>\<open>skimage.measure.label\<close>, scikit-image's and
  not in the repository. The neighbours of a position inside an \<open>h\<close> by \<open>w\<close> image: the four
  that share an edge for connectivity 1, and the diagonal ones as well otherwise.
\<close>

definition neighbours :: "nat \<Rightarrow> nat \<Rightarrow> nat \<Rightarrow> nat \<times> nat \<Rightarrow> (nat \<times> nat) list" where
  "neighbours connectivity h w p =
     (let (r, c) = p
      in (if 0 < r then [(r - 1, c)] else []) @
         (if r + 1 < h then [(r + 1, c)] else []) @
         (if 0 < c then [(r, c - 1)] else []) @
         (if c + 1 < w then [(r, c + 1)] else []) @
         (if connectivity = 1 then []
          else (if 0 < r \<and> 0 < c then [(r - 1, c - 1)] else []) @
               (if 0 < r \<and> c + 1 < w then [(r - 1, c + 1)] else []) @
               (if r + 1 < h \<and> 0 < c then [(r + 1, c - 1)] else []) @
               (if r + 1 < h \<and> c + 1 < w then [(r + 1, c + 1)] else [])))"

text \<open>
  Modelled from the spec: a connected component of \<^verbatim>\<open>skimage.measure.label\<close>, scikit-image's
  and not in the repository. The region of a seed grows by the neighbours of its positions
  that carry the seed's value, until none is new.
\<close>

function flood ::
  "nat \<Rightarrow> nat \<Rightarrow> (nat \<times> nat \<Rightarrow> (nat \<times> nat) list) \<Rightarrow> (nat \<times> nat \<Rightarrow> bool) \<Rightarrow>
   (nat \<times> nat) list \<Rightarrow> (nat \<times> nat) list" where
  "flood h w nb same region =
     (let nxt = remdups (filter (\<lambda>q. fst q < h \<and> snd q < w \<and> same q \<and> q \<notin> set region)
                           (concat (map nb region)))
      in if nxt = [] then region else flood h w nb same (region @ nxt))"
  by pat_completeness auto
termination
proof (relation "measure (\<lambda>(h, w, nb, same, region). card (({..<h} \<times> {..<w}) - set region))")
  show "wf (measure (\<lambda>(h, w, nb, same, region). card (({..<h} \<times> {..<w}) - set region)))"
    by simp
next
  fix h w :: nat and nb :: "nat \<times> nat \<Rightarrow> (nat \<times> nat) list" and same :: "nat \<times> nat \<Rightarrow> bool"
    and region nxt :: "(nat \<times> nat) list"
  assume nxt: "nxt = remdups (filter (\<lambda>q. fst q < h \<and> snd q < w \<and> same q \<and> q \<notin> set region)
                           (concat (map nb region)))"
    and ne: "nxt \<noteq> []"
  from ne obtain q where q: "q \<in> set nxt" by (cases nxt) auto
  with nxt have q_in: "q \<in> ({..<h} \<times> {..<w}) - set region"
    by (cases q) auto
  have "({..<h} \<times> {..<w}) - set (region @ nxt) \<subset> ({..<h} \<times> {..<w}) - set region"
    using q q_in by auto
  then have "card (({..<h} \<times> {..<w}) - set (region @ nxt)) < card (({..<h} \<times> {..<w}) - set region)"
    by (intro psubset_card_mono) auto
  then show "((h, w, nb, same, region @ nxt), (h, w, nb, same, region))
      \<in> measure (\<lambda>(h, w, nb, same, region). card (({..<h} \<times> {..<w}) - set region))"
    by simp
qed

text \<open>
  Modelled from the spec: one step of the scan of \<^verbatim>\<open>skimage.measure.label\<close>, scikit-image's
  and not in the repository. A position that is not background and has no label yet starts
  the next label, which its whole connected region of equal value receives.
\<close>

definition label_step ::
  "u8 list \<Rightarrow> nat \<Rightarrow> nat \<Rightarrow> u8 \<Rightarrow> nat \<Rightarrow> nat \<times> nat \<Rightarrow> int list \<times> nat \<Rightarrow> int list \<times> nat" where
  "label_step px h w background connectivity p st =
     (let (labels, n) = st
      in if elem_at w px p \<noteq> background \<and> elem_at w labels p = 0 then
           (let region = flood h w (neighbours connectivity h w)
                           (\<lambda>q. elem_at w px q = elem_at w px p) [p];
                labels' = fold (\<lambda>q ls. ls[fst q * w + snd q := int (Suc n)]) region labels
            in (labels', Suc n))
         else (labels, n))"

text \<open>
  Modelled from the spec: \<^verbatim>\<open>skimage.measure.label(image, background, return_num=True,
  connectivity)\<close>, scikit-image's and not in the repository. The scan visits the positions in
  row-major order. The result is the label array (0 on the background) and the number of
  labels.
\<close>

definition sk_label :: "u8 ndarray \<Rightarrow> u8 \<Rightarrow> nat \<Rightarrow> error + (int ndarray \<times> nat)" where
  "sk_label img background connectivity =
     (case shape img of
        [h, w] \<Rightarrow>
          (let (labels, num) = fold (label_step (data img) h w background connectivity)
                                 (positions h w) (replicate (h * w) 0, 0)
           in Inr (\<lparr>shape = [h, w], data = labels\<rparr>, num))
      | _ \<Rightarrow> Inl UnsupportedShape)"

text \<open>
  Modelled from the spec: the centre of mass of one label in
  \<^verbatim>\<open>scipy.ndimage.center_of_mass\<close>, SciPy's and not in the repository: the mean of the positions
  that carry the label, weighted by the input there, as \<open>(row, col)\<close>.
\<close>

definition centroid :: "nat \<Rightarrow> nat \<Rightarrow> int list \<Rightarrow> int list \<Rightarrow> int \<Rightarrow> point" where
  "centroid h w input labels k =
     (let region = filter (\<lambda>p. elem_at w labels p = k) (positions h w);
          total = (\<Sum>p\<leftarrow>region. real_of_int (elem_at w input p))
      in ((\<Sum>p\<leftarrow>region. real_of_int (elem_at w input p) * real (fst p)) / total,
          (\<Sum>p\<leftarrow>region. real_of_int (elem_at w input p) * real (snd p)) / total))"

text \<open>
  Modelled from the spec: \<^verbatim>\<open>scipy.ndimage.center_of_mass(input, labels, index)\<close>, SciPy's and
  not in the repository: the centre of mass of every label of the index, in index order.
\<close>

definition center_of_mass :: "int ndarray \<Rightarrow> int ndarray \<Rightarrow> int list \<Rightarrow> error + point list" where
  "center_of_mass input labels index =
     (case shape labels of
        [h, w] \<Rightarrow> Inr (map (centroid h w (data input) (data labels)) index)
      | _ \<Rightarrow> Inl UnsupportedShape)"

text \<open>
  \<^verbatim>\<open>__get_chromosome_candidates\<close>: threshold at 100 to 0 or 255, morphological gradient with
  the 3 by 3 rectangle, labels with background 0 and connectivity 1, and the centre of mass
  of every label from 1 to the number of labels, the label array being its own weight.
\<close>

definition get_chromosome_candidates :: "u8 ndarray \<Rightarrow> error + point list" where
  "get_chromosome_candidates img =
     (let ksize = (3, 3);
          thresh = cv2_threshold img 100 255
      in case morphology_gradient thresh ksize of
           Inl e \<Rightarrow> Inl e
         | Inr morph \<Rightarrow>
             (case sk_label morph 0 1 of
                Inl e \<Rightarrow> Inl e
              | Inr (labels, num_labels) \<Rightarrow>
                  center_of_mass labels labels [1..int num_labels]))"

section \<open>Chromosome detection\<close>

text \<open>
  \<^verbatim>\<open>detect_chromosomes\<close>: the unsharp mask with kernel 5 by 5, sigma 5.0, amount 5.0 and
  threshold 100; the red and the green channel; their candidates; the two counters set to
  zero; the assigner for red, then for green, with closeness 1.0.
\<close>

definition detect_chromosomes ::
  "(u8 ndarray \<Rightarrow> nat \<times> nat \<Rightarrow> real \<Rightarrow> u8 ndarray) \<Rightarrow> ('ma \<Rightarrow> 'c list) \<Rightarrow> ('c \<Rightarrow> point \<Rightarrow> real) \<Rightarrow>
   (u8 ndarray, 'ma) detector \<Rightarrow> error + (u8 ndarray, 'ma) detector" where
  "detect_chromosomes GaussianBlur findContours pointPolygonTest self =
     (let unsharped_image = unsharp_mask GaussianBlur (image self) (5, 5) 5 5 100
      in case last_axis 0 unsharped_image of
           Inl e \<Rightarrow> Inl e
         | Inr red_channel \<Rightarrow>
         (case last_axis 1 unsharped_image of
           Inl e \<Rightarrow> Inl e
         | Inr green_channel \<Rightarrow>
         (case get_chromosome_candidates red_channel of
           Inl e \<Rightarrow> Inl e
         | Inr red_chromosome_candidates \<Rightarrow>
         (case get_chromosome_candidates green_channel of
           Inl e \<Rightarrow> Inl e
         | Inr green_chromosome_candidates \<Rightarrow>
         (let closeness = 1;
              self = self\<lparr>RedChromosome := 0, GreenChromosome := 0\<rparr>
          in case filter_chromosomes findContours pointPolygonTest self
                    red_chromosome_candidates ''red'' closeness of
               Inl e \<Rightarrow> Inl e
             | Inr (accepted_red, self) \<Rightarrow>
             (case filter_chromosomes findContours pointPolygonTest self
                     green_chromosome_candidates ''green'' closeness of
                Inl e \<Rightarrow> Inl e
              | Inr (accepted_green, self) \<Rightarrow> Inr self))))))"

section \<open>Worked examples\<close>

text \<open>
  In the examples a mask is a number \<open>n\<close> standing for the square with corners \<open>(0, 0)\<close> and
  \<open>(n, n)\<close>; the mask \<open>0\<close> has no contour. For a point inside the square the distance below
  is its distance to the boundary; for a point outside it is negative.
\<close>

definition square_contours :: "nat \<Rightarrow> nat list" where
  "square_contours n = (if n = 0 then [] else [n])"

definition square_distance :: "nat \<Rightarrow> point \<Rightarrow> real" where
  "square_distance n p =
     min (min (fst p) (snd p)) (min (real n - fst p) (real n - snd p))"

definition new_cell :: "'ma \<Rightarrow> CellType \<Rightarrow> 'ma Cell" where
  "new_cell area t =
     \<lparr>masked_area = area, cell_type = t, red_chromosomes = [], green_chromosomes = []\<rparr>"

definition two_squares :: "(unit, nat) detector" where
  "two_squares =
     \<lparr>image = (), cells = [new_cell 4 WHOLE, new_cell 20 EXPLODED],
      RedChromosome = 0, GreenChromosome = 0\<rparr>"

text \<open>The same registry after the red point \<open>(2, 2)\<close> went to the first cell and \<open>(10, 10)\<close> to the second.\<close>

definition two_squares_red :: "(unit, nat) detector" where
  "two_squares_red =
     \<lparr>image = (),
      cells = [add_red_chromosome (new_cell 4 WHOLE) (2, 2),
               add_red_chromosome (new_cell 20 EXPLODED) (10, 10)],
      RedChromosome = 2, GreenChromosome = 0\<rparr>"

text \<open>
  A stand-in for \<^verbatim>\<open>cv2.GaussianBlur\<close> in worked examples: it returns an array of the image's
  shape with the given elements.
\<close>

definition fixed_blur :: "u8 list \<Rightarrow> u8 ndarray \<Rightarrow> nat \<times> nat \<Rightarrow> real \<Rightarrow> u8 ndarray" where
  "fixed_blur blurred_data img kernel_size sigma = \<lparr>shape = shape img, data = blurred_data\<rparr>"

text \<open>
  A 5 by 5 RGB image that is 250 everywhere but at its centre pixel (elements 36 to 38),
  which is 150, and a stand-in for its blur: a Gaussian blur of this image is strictly
  between 150 and 250 at the centre (about 246 for a 5 by 5 kernel with sigma 5).
\<close>

definition dark_centre :: "u8 ndarray" where
  "dark_centre = \<lparr>shape = [5, 5, 3], data = replicate 36 250 @ replicate 3 150 @ replicate 36 250\<rparr>"

definition dark_centre_blurred :: "u8 list" where
  "dark_centre_blurred = replicate 75 246"

text \<open>
  A stand-in detector that finds the two squares, a whole cell and an exploded one; one that
  finds nothing; a \<open>mask_image\<close> that keeps the mask as it is; and the class names.
\<close>

definition finds_two :: "unit \<Rightarrow> int list \<Rightarrow> real \<Rightarrow> nat prediction list" where
  "finds_two img classes conf = [\<lparr>masks = [4, 20], cls = [1, 0]\<rparr>]"


definition keep_mask :: "unit \<Rightarrow> nat \<Rightarrow> error + nat" where
  "keep_mask img m = Inr m"

definition class_names :: "int \<rightharpoonup> string" where
  "class_names = [0 \<mapsto> ''Explode cell'', 1 \<mapsto> ''Whole cell'']"


text \<open>
  A 5 by 5 RGB image that is black but for a red centre pixel, a detector that holds it with
  the two squares as its registry, and a stand-in blur that leaves an image as it is.
\<close>

definition red_spot :: "u8 ndarray" where
  "red_spot = \<lparr>shape = [5, 5, 3], data = replicate 36 0 @ [200, 0, 0] @ replicate 36 0\<rparr>"

definition spot_detector :: "(u8 ndarray, nat) detector" where
  "spot_detector =
     \<lparr>image = red_spot, cells = [new_cell 4 WHOLE, new_cell 20 EXPLODED],
      RedChromosome = 0, GreenChromosome = 0\<rparr>"

definition no_blur :: "u8 ndarray \<Rightarrow> nat \<times> nat \<Rightarrow> real \<Rightarrow> u8 ndarray" where
  "no_blur img kernel_size sigma = img"

text \<open>The detector after one and after two calls of \<^verbatim>\<open>detect_chromosomes\<close>.\<close>

definition spot_detector_once :: "(u8 ndarray, nat) detector" where
  "spot_detector_once =
     \<lparr>image = red_spot,
      cells = [add_red_chromosome (new_cell 4 WHOLE) (2, 2), new_cell 20 EXPLODED],
      RedChromosome = 1, GreenChromosome = 0\<rparr>"

definition spot_detector_twice :: "(u8 ndarray, nat) detector" where
  "spot_detector_twice =
     \<lparr>image = red_spot,
      cells = [add_red_chromosome (add_red_chromosome (new_cell 4 WHOLE) (2, 2)) (2, 2),
               new_cell 20 EXPLODED],
      RedChromosome = 1, GreenChromosome = 0\<rparr>"

section \<open>Properties of the chromosome assigner\<close>

lemma first_index_bound: "first_index P xs = Some j \<Longrightarrow> j < length xs \<and> P (xs ! j) \<and> (\<forall>i<j. \<not> P (xs ! i))"
proof (induction xs arbitrary: j)
  case Nil then show ?case by simp
next
  case (Cons x xs)
  show ?case
  proof (cases "P x")
    case True with Cons.prems show ?thesis by simp
  next
    case False
    with Cons.prems obtain k where k: "first_index P xs = Some k" "j = Suc k" by auto
    from Cons.IH[OF k(1)] False k(2) show ?thesis by (auto simp: less_Suc_eq_0_disj)
  qed
qed

lemma filter_cells_step:
  "filter_cells fc ppt p ctype cl False cs ctr = Inr (a, cs', ctr') \<Longrightarrow>
   (case owner fc ppt cl cs p of
      None \<Rightarrow> \<not> a \<and> cs' = cs \<and> ctr' = ctr
    | Some j \<Rightarrow> a \<and> cs' = cs[j := record_into ctype p (cs ! j)] \<and> ctr' = bump ctype ctr)"
proof (induction cs arbitrary: a cs' ctr')
  case Nil
  then show ?case by (simp add: owner_def)
next
  case (Cons cell rest)
  show ?case
  proof (cases "fc (masked_area cell)")
    case Nil
    with Cons.prems show ?thesis by simp
  next
    case (Cons contour others)
    note fcs = this
    show ?thesis
    proof (cases "eligible fc ppt cl p (masked_area cell)")
      case True
      with fcs Cons.prems show ?thesis
        by (auto simp: owner_def eligible_def contour_distance_def record_into_def bump_def Let_def split: if_splits)
    next
      case False
      with fcs Cons.prems obtain a1 r1 c1 where
        rec: "filter_cells fc ppt p ctype cl False rest ctr = Inr (a1, r1, c1)"
        and eqs: "a = a1" "cs' = cell # r1" "ctr' = c1"
        by (auto simp: eligible_def contour_distance_def Let_def split: if_splits sum.splits)
      from Cons.IH[OF rec] False eqs show ?thesis
        by (auto simp: owner_def split: option.splits)
    qed
  qed
qed

lemma record_all_Nil: "record_all ctype [] cell = cell"
  by (simp add: record_all_def)

lemma record_all_Cons: "record_all ctype ps (record_into ctype p cell) = record_all ctype (p # ps) cell"
  by (simp add: record_all_def record_into_def add_red_chromosome_def add_green_chromosome_def)

lemma add_count_0: "add_count ctype 0 ctr = ctr"
  by (simp add: add_count_def)

lemma add_count_Suc: "add_count ctype n (bump ctype ctr) = add_count ctype (Suc n) ctr"
  by (simp add: add_count_def bump_def)

lemma masked_area_record_into: "masked_area (record_into ctype p cell) = masked_area cell"
  by (simp add: record_into_def add_red_chromosome_def add_green_chromosome_def)

lemma cell_type_record_into: "cell_type (record_into ctype p cell) = cell_type cell"
  by (simp add: record_into_def add_red_chromosome_def add_green_chromosome_def)

lemma map_update_same: "f y = f (xs ! j) \<Longrightarrow> map f (xs[j := y]) = map f xs"
  by (cases "j < length xs") (simp_all add: map_update list_update_same_conv list_update_beyond)

lemma owner_cong: "map masked_area cs' = map masked_area cs \<Longrightarrow> owner fc ppt cl cs' p = owner fc ppt cl cs p"
  by (simp add: owner_def)

lemma owner_bound: "owner fc ppt cl cs p = Some j \<Longrightarrow> j < length cs"
  using first_index_bound[of _ "map masked_area cs" j] by (auto simp: owner_def)

lemma filter_loop_char:
  "filter_loop fc ppt ctype cl idx cands acc cs ctr = Inr (acc', cs', ctr') \<Longrightarrow>
   idx + length cands = length acc \<Longrightarrow>
   (\<forall>i. idx \<le> i \<longrightarrow> i < length acc \<longrightarrow> \<not> acc ! i) \<Longrightarrow>
   length cs' = length cs \<and>
   map masked_area cs' = map masked_area cs \<and>
   map cell_type cs' = map cell_type cs \<and>
   acc' = take idx acc @ map (\<lambda>p. owner fc ppt cl cs p \<noteq> None) cands \<and>
   (\<forall>j<length cs. cs' ! j = record_all ctype (filter (\<lambda>p. owner fc ppt cl cs p = Some j) cands) (cs ! j)) \<and>
   ctr' = add_count ctype (length (filter (\<lambda>p. owner fc ppt cl cs p \<noteq> None) cands)) ctr"
proof (induction cands arbitrary: idx acc cs ctr)
  case Nil
  then show ?case by (simp add: record_all_Nil add_count_0)
next
  case (Cons p later)
  from Cons.prems(2) have idx_lt: "idx < length acc" by simp
  with Cons.prems(3) have flag: "acc ! idx = False" by simp
  from Cons.prems(1) flag obtain a cs1 ctr1 where
    step: "filter_cells fc ppt p ctype cl False cs ctr = Inr (a, cs1, ctr1)"
    and rest: "filter_loop fc ppt ctype cl (Suc idx) later (acc[idx := a]) cs1 ctr1 = Inr (acc', cs', ctr')"
    by (auto split: sum.splits)
  note st = filter_cells_step[OF step]
  have a_eq: "a = (owner fc ppt cl cs p \<noteq> None)"
    using st by (auto split: option.splits)
  have cs1_eq: "cs1 = (case owner fc ppt cl cs p of None \<Rightarrow> cs | Some j \<Rightarrow> cs[j := record_into ctype p (cs ! j)])"
    using st by (auto split: option.splits)
  have ctr1_eq: "ctr1 = (if owner fc ppt cl cs p = None then ctr else bump ctype ctr)"
    using st by (auto split: option.splits)
  have len1: "length cs1 = length cs"
    by (simp add: cs1_eq split: option.splits)
  have ma1: "map masked_area cs1 = map masked_area cs"
    by (simp add: cs1_eq map_update_same masked_area_record_into split: option.splits)
  have ct1: "map cell_type cs1 = map cell_type cs"
    by (simp add: cs1_eq map_update_same cell_type_record_into split: option.splits)
  have own1: "\<And>q. owner fc ppt cl cs1 q = owner fc ppt cl cs q"
    by (rule owner_cong[OF ma1])
  have p2: "Suc idx + length later = length (acc[idx := a])"
    using Cons.prems(2) by simp
  have p3: "\<forall>i. Suc idx \<le> i \<longrightarrow> i < length (acc[idx := a]) \<longrightarrow> \<not> (acc[idx := a]) ! i"
    using Cons.prems(3) by simp
  note ih = Cons.IH[OF rest p2 p3]
  have tk: "take (Suc idx) (acc[idx := a]) = take idx acc @ [a]"
    using idx_lt by (simp add: take_Suc_conv_app_nth)
  have nth1: "\<And>j. j < length cs \<Longrightarrow>
      cs1 ! j = (if owner fc ppt cl cs p = Some j then record_into ctype p (cs ! j) else cs ! j)"
    by (auto simp: cs1_eq nth_list_update split: option.splits)
  have cells: "\<forall>j<length cs. cs' ! j =
      record_all ctype (filter (\<lambda>q. owner fc ppt cl cs q = Some j) (p # later)) (cs ! j)"
  proof (intro allI impI)
    fix j assume j: "j < length cs"
    with ih len1 have "cs' ! j = record_all ctype (filter (\<lambda>q. owner fc ppt cl cs1 q = Some j) later) (cs1 ! j)"
      by simp
    then show "cs' ! j = record_all ctype (filter (\<lambda>q. owner fc ppt cl cs q = Some j) (p # later)) (cs ! j)"
      by (simp add: own1 nth1[OF j] record_all_Cons)
  qed
  have ctr: "ctr' = add_count ctype (length (filter (\<lambda>q. owner fc ppt cl cs q \<noteq> None) (p # later))) ctr"
    using ih by (simp add: own1 ctr1_eq add_count_Suc)
  have "acc' = take (Suc idx) (acc[idx := a]) @ map (\<lambda>q. owner fc ppt cl cs1 q \<noteq> None) later"
    using ih by blast
  then have accs: "acc' = take idx acc @ map (\<lambda>q. owner fc ppt cl cs q \<noteq> None) (p # later)"
    unfolding tk own1 by (simp add: a_eq)
  from ih len1 ma1 ct1 cells ctr accs show ?case by simp
qed

lemma filter_chromosomes_char:
  assumes "filter_chromosomes fc ppt self cands ctype cl = Inr (accepted, self')"
  shows "image self' = image self \<and>
   length (cells self') = length (cells self) \<and>
   map masked_area (cells self') = map masked_area (cells self) \<and>
   map cell_type (cells self') = map cell_type (cells self) \<and>
   accepted = map (\<lambda>p. owner fc ppt cl (cells self) p \<noteq> None) cands \<and>
   (\<forall>j<length (cells self). cells self' ! j =
       record_all ctype (filter (\<lambda>p. owner fc ppt cl (cells self) p = Some j) cands) (cells self ! j)) \<and>
   (RedChromosome self', GreenChromosome self') =
     add_count ctype (length (filter (\<lambda>p. owner fc ppt cl (cells self) p \<noteq> None) cands))
       (RedChromosome self, GreenChromosome self)"
proof -
  from assms obtain cs' ctr' where
    loop: "filter_loop fc ppt ctype cl 0 cands (replicate (length cands) False) (cells self)
             (RedChromosome self, GreenChromosome self) = Inr (accepted, cs', ctr')"
    and self': "self' = self\<lparr>cells := cs', RedChromosome := fst ctr', GreenChromosome := snd ctr'\<rparr>"
    by (auto simp: filter_chromosomes_def Let_def split: sum.splits)
  have "0 + length cands = length (replicate (length cands) False)" by simp
  moreover have "\<forall>i. 0 \<le> i \<longrightarrow> i < length (replicate (length cands) False) \<longrightarrow>
      \<not> replicate (length cands) False ! i" by simp
  ultimately have ch: "length cs' = length (cells self) \<and>
   map masked_area cs' = map masked_area (cells self) \<and>
   map cell_type cs' = map cell_type (cells self) \<and>
   accepted = take 0 (replicate (length cands) False) @ map (\<lambda>p. owner fc ppt cl (cells self) p \<noteq> None) cands \<and>
   (\<forall>j<length (cells self). cs' ! j = record_all ctype (filter (\<lambda>p. owner fc ppt cl (cells self) p = Some j) cands) (cells self ! j)) \<and>
   ctr' = add_count ctype (length (filter (\<lambda>p. owner fc ppt cl (cells self) p \<noteq> None) cands)) (RedChromosome self, GreenChromosome self)"
    by (rule filter_loop_char[OF loop])
  then show ?thesis by (simp add: self')
qed

lemma owner_eligible:
  assumes "owner fc ppt cl cs p = Some j"
  shows "j < length cs \<and> (\<exists>d. contour_distance fc ppt (masked_area (cs ! j)) p = Some d \<and> cl < d \<and> 0 < d)"
proof -
  from assms have fi: "first_index (eligible fc ppt cl p) (map masked_area cs) = Some j"
    by (simp add: owner_def)
  from first_index_bound[OF fi] have j: "j < length cs" by simp
  from first_index_bound[OF fi] j have el: "eligible fc ppt cl p (masked_area (cs ! j))"
    by simp
  from el show ?thesis using j by (auto simp: eligible_def split: option.splits)
qed

lemma chromosomes_of_record_all:
  "ctype = ''red'' \<or> ctype = ''green'' \<Longrightarrow>
   chromosomes_of ctype (record_all ctype ps cell) = chromosomes_of ctype cell @ ps"
  by (auto simp: chromosomes_of_def record_all_def)

lemma red_record_all:
  "red_chromosomes (record_all ctype ps cell) = red_chromosomes cell @ (if ctype = ''red'' then ps else [])"
  by (simp add: record_all_def)

lemma green_record_all:
  "green_chromosomes (record_all ctype ps cell) = green_chromosomes cell @ (if ctype = ''green'' then ps else [])"
  by (simp add: record_all_def)

lemma sum_indicator_owner:
  fixes g :: "'a \<Rightarrow> nat option"
  assumes "\<forall>p\<in>set xs. \<forall>j. g p = Some j \<longrightarrow> j < n"
  shows "(\<Sum>j<n. length (filter (\<lambda>p. g p = Some j) xs)) = length (filter (\<lambda>p. g p \<noteq> None) xs)"
  using assms
proof (induction xs)
  case Nil
  then show ?case by simp
next
  case (Cons x xs)
  then have ih: "(\<Sum>j<n. length (filter (\<lambda>p. g p = Some j) xs)) = length (filter (\<lambda>p. g p \<noteq> None) xs)"
    by simp
  have "(\<Sum>j<n. length (filter (\<lambda>p. g p = Some j) (x # xs))) =
        (\<Sum>j<n. (if g x = Some j then 1 else 0) + length (filter (\<lambda>p. g p = Some j) xs))"
    by (intro sum.cong) auto
  also have "\<dots> = (\<Sum>j<n. (if g x = Some j then 1 else 0)) + length (filter (\<lambda>p. g p \<noteq> None) xs)"
    by (simp add: sum.distrib ih)
  also have "(\<Sum>j<n. (if g x = Some j then 1 else 0 :: nat)) = (if g x \<noteq> None then 1 else 0)"
  proof (cases "g x")
    case None
    then show ?thesis by simp
  next
    case (Some k)
    with Cons.prems have "k < n" by simp
    have "(\<Sum>j<n. (if g x = Some j then 1 else 0 :: nat)) = (\<Sum>j\<in>{..<n}. (if k = j then 1 else 0))"
      using Some by simp
    also have "\<dots> = 1" using \<open>k < n\<close> by simp
    finally show ?thesis using Some by simp
  qed
  finally show ?case by simp
qed

lemma total_chromosomes_nth:
  "total_chromosomes ctype cs = (\<Sum>j<length cs. length (chromosomes_of ctype (cs ! j)))"
proof -
  have "sum_list (map (\<lambda>cell. length (chromosomes_of ctype cell)) cs) =
        (\<Sum>j = 0..<length cs. map (\<lambda>cell. length (chromosomes_of ctype cell)) cs ! j)"
    using sum_list_sum_nth[of "map (\<lambda>cell. length (chromosomes_of ctype cell)) cs"] by simp
  also have "\<dots> = (\<Sum>j = 0..<length cs. length (chromosomes_of ctype (cs ! j)))"
    by (intro sum.cong) auto
  finally show ?thesis by (simp add: total_chromosomes_def atLeast0LessThan)
qed

lemma two_squares_red_pass:
  "filter_chromosomes square_contours square_distance two_squares
          [(10, 10), (2, 2), (2, 1/2)] ''red'' 1 =
        Inr ([True, True, False], two_squares_red)"
  by (simp add: filter_chromosomes_def two_squares_def two_squares_red_def new_cell_def
        square_contours_def square_distance_def add_red_chromosome_def Let_def)

text \<open>
  Claim C1. Whenever a pass of the assigner returns, every point it appended to a cell's red
  or green list has a signed distance to that cell's first mask contour (the point given as
  \<open>(col, row)\<close>) that is strictly greater than the closeness threshold, and strictly
  positive. The old entries of each list stay in front, so the appended points are those
  after the old length. A point at distance \<open>\<le> 0\<close> is therefore never appended, whatever the
  threshold.
\<close>

theorem accepted_point_beyond_closeness:
  assumes "filter_chromosomes findContours pointPolygonTest self candidates chromosome_type closeness
             = Inr (accepted, self')"
  shows "length (cells self') = length (cells self) \<and>
    (\<forall>j<length (cells self).
       take (length (red_chromosomes (cells self ! j))) (red_chromosomes (cells self' ! j))
         = red_chromosomes (cells self ! j) \<and>
       take (length (green_chromosomes (cells self ! j))) (green_chromosomes (cells self' ! j))
         = green_chromosomes (cells self ! j) \<and>
       (\<forall>p \<in> set (drop (length (red_chromosomes (cells self ! j))) (red_chromosomes (cells self' ! j)))
             \<union> set (drop (length (green_chromosomes (cells self ! j))) (green_chromosomes (cells self' ! j))).
          \<exists>d. contour_distance findContours pointPolygonTest (masked_area (cells self' ! j)) p = Some d \<and>
              closeness < d \<and> 0 < d))"
proof -
  note ch = filter_chromosomes_char[OF assms]
  from ch have len: "length (cells self') = length (cells self)" by blast
  have "\<forall>j<length (cells self).
       take (length (red_chromosomes (cells self ! j))) (red_chromosomes (cells self' ! j))
         = red_chromosomes (cells self ! j) \<and>
       take (length (green_chromosomes (cells self ! j))) (green_chromosomes (cells self' ! j))
         = green_chromosomes (cells self ! j) \<and>
       (\<forall>p \<in> set (drop (length (red_chromosomes (cells self ! j))) (red_chromosomes (cells self' ! j)))
             \<union> set (drop (length (green_chromosomes (cells self ! j))) (green_chromosomes (cells self' ! j))).
          \<exists>d. contour_distance findContours pointPolygonTest (masked_area (cells self' ! j)) p = Some d \<and>
              closeness < d \<and> 0 < d)"
  proof (intro allI impI)
    fix j assume j: "j < length (cells self)"
    let ?ps = "filter (\<lambda>p. owner findContours pointPolygonTest closeness (cells self) p = Some j) candidates"
    from ch j have cj: "cells self' ! j = record_all chromosome_type ?ps (cells self ! j)" by blast
    from ch have "map masked_area (cells self') = map masked_area (cells self)" by blast
    then have "map masked_area (cells self') ! j = map masked_area (cells self) ! j" by simp
    with j len have ma: "masked_area (cells self' ! j) = masked_area (cells self ! j)" by simp
    have dist: "\<exists>d. contour_distance findContours pointPolygonTest (masked_area (cells self' ! j)) p = Some d \<and>
              closeness < d \<and> 0 < d" if "p \<in> set ?ps" for p
    proof -
      from that have "owner findContours pointPolygonTest closeness (cells self) p = Some j" by simp
      from owner_eligible[OF this] show ?thesis by (simp add: ma)
    qed
    show "take (length (red_chromosomes (cells self ! j))) (red_chromosomes (cells self' ! j))
         = red_chromosomes (cells self ! j) \<and>
       take (length (green_chromosomes (cells self ! j))) (green_chromosomes (cells self' ! j))
         = green_chromosomes (cells self ! j) \<and>
       (\<forall>p \<in> set (drop (length (red_chromosomes (cells self ! j))) (red_chromosomes (cells self' ! j)))
             \<union> set (drop (length (green_chromosomes (cells self ! j))) (green_chromosomes (cells self' ! j))).
          \<exists>d. contour_distance findContours pointPolygonTest (masked_area (cells self' ! j)) p = Some d \<and>
              closeness < d \<and> 0 < d)"
    proof (intro conjI ballI)
      show "take (length (red_chromosomes (cells self ! j))) (red_chromosomes (cells self' ! j))
         = red_chromosomes (cells self ! j)"
        by (simp add: cj red_record_all)
      show "take (length (green_chromosomes (cells self ! j))) (green_chromosomes (cells self' ! j))
         = green_chromosomes (cells self ! j)"
        by (simp add: cj green_record_all)
    next
      fix p
      assume "p \<in> set (drop (length (red_chromosomes (cells self ! j))) (red_chromosomes (cells self' ! j)))
             \<union> set (drop (length (green_chromosomes (cells self ! j))) (green_chromosomes (cells self' ! j)))"
      then have "p \<in> set ?ps"
        by (auto simp: cj red_record_all green_record_all split: if_splits)
      then show "\<exists>d. contour_distance findContours pointPolygonTest (masked_area (cells self' ! j)) p = Some d \<and>
              closeness < d \<and> 0 < d"
        by (rule dist)
    qed
  qed
  with len show ?thesis by blast
qed

theorem accepted_point_beyond_closeness_witness:
  "filter_chromosomes square_contours square_distance two_squares
          [(10, 10), (2, 2), (2, 1/2)] ''red'' 1 =
        Inr ([True, True, False], two_squares_red) \<and>
   (\<exists>d. contour_distance square_contours square_distance 20 (10, 10) = Some d \<and> 1 < d \<and> 0 < d)"
proof -
  note main = accepted_point_beyond_closeness[OF two_squares_red_pass]
  have j: "1 < length (cells two_squares)"
    by (simp add: two_squares_def)
  note at_1 = main[THEN conjunct2, rule_format, OF j, THEN conjunct2, THEN conjunct2, rule_format,
      of "(10, 10)"]
  have "(10, 10) \<in> set (drop (length (red_chromosomes (cells two_squares ! 1)))
                           (red_chromosomes (cells two_squares_red ! 1)))
                \<union> set (drop (length (green_chromosomes (cells two_squares ! 1)))
                           (green_chromosomes (cells two_squares_red ! 1)))"
    by (simp add: two_squares_def two_squares_red_def new_cell_def add_red_chromosome_def)
  from at_1[OF this]
  have "\<exists>d. contour_distance square_contours square_distance 20 (10, 10) = Some d \<and> 1 < d \<and> 0 < d"
    by (simp add: two_squares_red_def new_cell_def add_red_chromosome_def)
  with two_squares_red_pass show ?thesis by simp
qed

text \<open>
  Claim C2. In one pass for the red or the green channel, a candidate is accepted exactly
  when it has an owner (the first cell in registry order for which it is eligible), and the
  list of cell \<open>j\<close> grows by exactly the candidates owned by \<open>j\<close>, in candidate order. The
  sum of the channel's list lengths grows by the number of accepted candidates; on a
  registry whose lists for the channel are empty, as \<^verbatim>\<open>find_cells\<close> builds it, the sum equals
  that number and no point is in the lists of two cells.
\<close>

theorem first_match_partition:
  assumes "filter_chromosomes findContours pointPolygonTest self candidates chromosome_type closeness
             = Inr (accepted, self')"
      and "chromosome_type = ''red'' \<or> chromosome_type = ''green''"
  shows "length (cells self') = length (cells self) \<and>
    accepted = map (\<lambda>p. owner findContours pointPolygonTest closeness (cells self) p \<noteq> None) candidates \<and>
    (\<forall>j<length (cells self).
       chromosomes_of chromosome_type (cells self' ! j) =
         chromosomes_of chromosome_type (cells self ! j) @
         filter (\<lambda>p. owner findContours pointPolygonTest closeness (cells self) p = Some j) candidates) \<and>
    total_chromosomes chromosome_type (cells self') =
      total_chromosomes chromosome_type (cells self) + count_accepted accepted \<and>
    ((\<forall>cell \<in> set (cells self). chromosomes_of chromosome_type cell = []) \<longrightarrow>
       total_chromosomes chromosome_type (cells self') = count_accepted accepted \<and>
       (\<forall>j k p. j < length (cells self) \<and> k < length (cells self) \<and>
                p \<in> set (chromosomes_of chromosome_type (cells self' ! j)) \<and>
                p \<in> set (chromosomes_of chromosome_type (cells self' ! k)) \<longrightarrow> j = k))"
proof -
  let ?own = "owner findContours pointPolygonTest closeness (cells self)"
  note ch = filter_chromosomes_char[OF assms(1)]
  from ch have len: "length (cells self') = length (cells self)" by blast
  from ch have acc: "accepted = map (\<lambda>p. ?own p \<noteq> None) candidates" by blast
  have lists: "\<forall>j<length (cells self).
       chromosomes_of chromosome_type (cells self' ! j) =
         chromosomes_of chromosome_type (cells self ! j) @ filter (\<lambda>p. ?own p = Some j) candidates"
  proof (intro allI impI)
    fix j assume j: "j < length (cells self)"
    with ch have "cells self' ! j =
       record_all chromosome_type (filter (\<lambda>p. ?own p = Some j) candidates) (cells self ! j)" by blast
    then show "chromosomes_of chromosome_type (cells self' ! j) =
         chromosomes_of chromosome_type (cells self ! j) @ filter (\<lambda>p. ?own p = Some j) candidates"
      by (simp add: chromosomes_of_record_all[OF assms(2)])
  qed
  have cnt: "count_accepted accepted = length (filter (\<lambda>p. ?own p \<noteq> None) candidates)"
    by (simp add: acc count_accepted_def comp_def)
  have bound: "\<forall>p\<in>set candidates. \<forall>j. ?own p = Some j \<longrightarrow> j < length (cells self)"
    using owner_bound by blast
  have "total_chromosomes chromosome_type (cells self') =
        (\<Sum>j<length (cells self). length (chromosomes_of chromosome_type (cells self' ! j)))"
    by (simp add: total_chromosomes_nth len)
  also have "\<dots> = (\<Sum>j<length (cells self). length (chromosomes_of chromosome_type (cells self ! j)) +
                     length (filter (\<lambda>p. ?own p = Some j) candidates))"
    using lists by (intro sum.cong) auto
  also have "\<dots> = total_chromosomes chromosome_type (cells self) +
                  (\<Sum>j<length (cells self). length (filter (\<lambda>p. ?own p = Some j) candidates))"
    by (simp add: sum.distrib total_chromosomes_nth)
  also have "\<dots> = total_chromosomes chromosome_type (cells self) + count_accepted accepted"
    by (simp add: sum_indicator_owner[OF bound] cnt)
  finally have tot: "total_chromosomes chromosome_type (cells self') =
      total_chromosomes chromosome_type (cells self) + count_accepted accepted" .
  have fresh: "total_chromosomes chromosome_type (cells self') = count_accepted accepted \<and>
       (\<forall>j k p. j < length (cells self) \<and> k < length (cells self) \<and>
                p \<in> set (chromosomes_of chromosome_type (cells self' ! j)) \<and>
                p \<in> set (chromosomes_of chromosome_type (cells self' ! k)) \<longrightarrow> j = k)"
    if empty: "\<forall>cell \<in> set (cells self). chromosomes_of chromosome_type cell = []"
  proof -
    have z: "total_chromosomes chromosome_type (cells self) = 0"
      using empty by (simp add: total_chromosomes_def)
    have uniq: "j = k" if "j < length (cells self)" "k < length (cells self)"
        "p \<in> set (chromosomes_of chromosome_type (cells self' ! j))"
        "p \<in> set (chromosomes_of chromosome_type (cells self' ! k))" for j k p
    proof -
      from that empty lists have "?own p = Some j" "?own p = Some k" by auto
      then show "j = k" by simp
    qed
    from tot z uniq show ?thesis by auto
  qed
  from len acc lists tot fresh show ?thesis by blast
qed

theorem first_match_partition_witness:
  "filter_chromosomes square_contours square_distance two_squares
          [(10, 10), (2, 2), (2, 1/2)] ''red'' 1 =
        Inr ([True, True, False], two_squares_red) \<and>
   (''red'' = ''red'' \<or> ''red'' = ''green'') \<and>
   owner square_contours square_distance 1 (cells two_squares) (10, 10) = Some 1 \<and>
   owner square_contours square_distance 1 (cells two_squares) (2, 2) = Some 0 \<and>
   owner square_contours square_distance 1 (cells two_squares) (2, 1/2) = None \<and>
   total_chromosomes ''red'' (cells two_squares_red) =
     total_chromosomes ''red'' (cells two_squares) + count_accepted [True, True, False] \<and>
   total_chromosomes ''red'' (cells two_squares_red) = 2"
proof -
  have ty: "''red'' = ''red'' \<or> ''red'' = ''green''" by simp
  note main = first_match_partition[OF two_squares_red_pass ty]
  from main have tot: "total_chromosomes ''red'' (cells two_squares_red) =
     total_chromosomes ''red'' (cells two_squares) + count_accepted [True, True, False]"
    by blast
  have own: "owner square_contours square_distance 1 (cells two_squares) (10, 10) = Some 1"
    "owner square_contours square_distance 1 (cells two_squares) (2, 2) = Some 0"
    "owner square_contours square_distance 1 (cells two_squares) (2, 1/2) = None"
    by (simp_all add: owner_def eligible_def contour_distance_def two_squares_def new_cell_def
          square_contours_def square_distance_def)
  have "total_chromosomes ''red'' (cells two_squares) = 0"
    by (simp add: total_chromosomes_def chromosomes_of_def two_squares_def new_cell_def)
  with tot have "total_chromosomes ''red'' (cells two_squares_red) = 2"
    by (simp add: count_accepted_def)
  with two_squares_red_pass tot own show ?thesis by simp
qed

section \<open>Properties of the unsharp mask\<close>



lemma astype_np_round: "astype_uint8 (of_int n) = word_of_int n"
  by (simp add: astype_uint8_def)

lemma copyto_nth:
  "k < length dst \<Longrightarrow> k < length src \<Longrightarrow> k < length wh \<Longrightarrow>
   copyto dst src wh ! k = (if wh ! k then src ! k else dst ! k)"
proof (induction dst src wh arbitrary: k rule: copyto.induct)
  case (1 d dst s src w wh)
  then show ?case by (cases k) simp_all
qed simp_all

lemma sharpened_steps:
  "map (\<lambda>x. astype_uint8 (of_int (np_round x)))
     (map (\<lambda>x. min x 255) (map (\<lambda>x. max x 0)
        (map2 (\<lambda>i b. (amount + 1) * real (unat i) - amount * real (unat b)) xs ys)))
   = map2 (\<lambda>i b. word_of_int (sharpened_value amount i b)) xs ys"
  by (simp add: sharpened_value_def astype_np_round comp_def split_def)

lemma unsharp_mask_unfold:
  "unsharp_mask G img ks sigma amount threshold =
     \<lparr>shape = shape img,
      data = (if threshold > 0
              then copyto (map2 (\<lambda>i b. word_of_int (sharpened_value amount i b)) (data img) (data (G img ks sigma)))
                     (data img)
                     (map2 (\<lambda>i b. uint (i - b) < threshold) (data img) (data (G img ks sigma)))
              else map2 (\<lambda>i b. word_of_int (sharpened_value amount i b)) (data img) (data (G img ks sigma)))\<rparr>"
  unfolding unsharp_mask_def Let_def sharpened_steps by simp

lemma unsharp_mask_nth:
  assumes "k < length (data img)" "k < length (data (G img ks sigma))"
  shows "data (unsharp_mask G img ks sigma amount threshold) ! k =
     (if threshold > 0 \<and> uint (data img ! k - data (G img ks sigma) ! k) < threshold
      then data img ! k
      else word_of_int (sharpened_value amount (data img ! k) (data (G img ks sigma) ! k)))"
  using assms by (simp add: unsharp_mask_unfold copyto_nth)

lemma sharpened_value_150_246: "sharpened_value 5 150 246 = 0"
  by (simp add: sharpened_value_def np_round_def)

text \<open>
  Claim C3, which the code does not meet. The specification reverts a pixel when the
  absolute difference of image and blur is below the threshold. At the centre of the image
  \<open>dark_centre\<close> the pixel is 150 and the blur 246: the absolute difference 96 is below the
  threshold 100, yet the result there is the sharpened value 0, not 150. The module takes
  the difference of two \<^verbatim>\<open>uint8\<close> arrays, which wraps to 160.
\<close>

theorem low_contrast_pixel_not_reverted:
  "data dark_centre ! 36 = 150 \<and>
   dark_centre_blurred ! 36 = 246 \<and>
   \<bar>uint (150 :: u8) - uint (246 :: u8)\<bar> < 100 \<and>
   data (unsharp_mask (fixed_blur dark_centre_blurred) dark_centre (5, 5) 5 5 100) ! 36 = 0"
proof -
  have i: "data dark_centre ! 36 = 150"
    by (simp add: dark_centre_def nth_append)
  have b: "dark_centre_blurred ! 36 = 246"
    by (simp add: dark_centre_blurred_def)
  have "data (unsharp_mask (fixed_blur dark_centre_blurred) dark_centre (5, 5) 5 5 100) ! 36 =
     (if (100::int) > 0 \<and> uint (data dark_centre ! 36 - data (fixed_blur dark_centre_blurred dark_centre (5, 5) 5) ! 36) < 100
      then data dark_centre ! 36
      else word_of_int (sharpened_value 5 (data dark_centre ! 36) (data (fixed_blur dark_centre_blurred dark_centre (5, 5) 5) ! 36)))"
    by (rule unsharp_mask_nth) (simp_all add: dark_centre_def dark_centre_blurred_def fixed_blur_def)
  also have "\<dots> = 0"
    by (simp add: i b fixed_blur_def sharpened_value_150_246)
  finally show ?thesis using i b by simp
qed



section \<open>Properties of the RGBA conversion\<close>











section \<open>Properties of the cell registry builder\<close>

lemma build_cells_char:
  "build_cells mk img dets cs = Inr cs' \<Longrightarrow>
   \<exists>new. cs' = cs @ new \<and> list_all2 (built_from mk img) dets new"
proof (induction dets arbitrary: cs)
  case Nil
  then show ?case by simp
next
  case (Cons d rest)
  obtain m c where d: "d = (m, c)" by (cases d)
  from Cons.prems d obtain ma t where
    mk: "mk img m = Inr ma" and ty: "CellType_of c = Inr t"
    and rec: "build_cells mk img rest
        (cs @ [\<lparr>masked_area = ma, cell_type = t, red_chromosomes = [], green_chromosomes = []\<rparr>]) = Inr cs'"
    by (auto split: sum.splits)
  from Cons.IH[OF rec] obtain new where
    new: "cs' = (cs @ [\<lparr>masked_area = ma, cell_type = t, red_chromosomes = [], green_chromosomes = []\<rparr>]) @ new"
    "list_all2 (built_from mk img) rest new" by blast
  have "built_from mk img d \<lparr>masked_area = ma, cell_type = t, red_chromosomes = [], green_chromosomes = []\<rparr>"
    by (simp add: built_from_def d mk ty)
  with new have "cs' = cs @ (\<lparr>masked_area = ma, cell_type = t, red_chromosomes = [], green_chromosomes = []\<rparr> # new)
     \<and> list_all2 (built_from mk img) (d # rest)
          (\<lparr>masked_area = ma, cell_type = t, red_chromosomes = [], green_chromosomes = []\<rparr> # new)"
    by simp
  then show ?case by blast
qed

lemma build_registry_char:
  "build_registry mk img predictions cs = Inr cs' \<Longrightarrow>
   \<exists>new. cs' = cs @ new \<and> list_all2 (built_from mk img) (detections predictions) new"
proof (induction predictions arbitrary: cs)
  case Nil
  then show ?case by (simp add: detections_def)
next
  case (Cons p rest)
  from Cons.prems obtain cs1 where
    first: "build_cells mk img (zip (masks p) (cls p)) cs = Inr cs1"
    and more: "build_registry mk img rest cs1 = Inr cs'"
    by (auto split: sum.splits)
  from build_cells_char[OF first] obtain new1 where
    n1: "cs1 = cs @ new1" "list_all2 (built_from mk img) (zip (masks p) (cls p)) new1" by blast
  from Cons.IH[OF more] obtain new2 where
    n2: "cs' = cs1 @ new2" "list_all2 (built_from mk img) (detections rest) new2" by blast
  have "list_all2 (built_from mk img) (detections (p # rest)) (new1 @ new2)"
    using n1(2) n2(2) by (simp add: detections_def list_all2_appendI)
  with n1(1) n2(1) show ?case by auto
qed

lemma find_cells_char:
  assumes "find_cells predict mk names self confidence = Inr (counts, self')"
  shows "list_all2 (built_from mk (image self)) (detections (predict (image self) [0, 1] confidence)) (cells self')
     \<and> image self' = image self \<and> RedChromosome self' = RedChromosome self
     \<and> GreenChromosome self' = GreenChromosome self"
proof -
  let ?cs = "if cells self \<noteq> [] then [] else cells self"
  have empty: "?cs = []" by simp
  from assms obtain cs' where
    reg: "build_registry mk (image self) (predict (image self) [0, 1] confidence) ?cs = Inr cs'"
    and self': "self' = self\<lparr>cells := cs'\<rparr>"
    by (auto simp: find_cells_def Let_def split: sum.splits)
  from build_registry_char[OF reg] empty self' show ?thesis by auto
qed






lemma finds_two_run:
  "find_cells finds_two keep_mask class_names two_squares_red (1 / 2) =
     Inr ((1, 1), two_squares_red\<lparr>cells := cells two_squares\<rparr>)"
  by (simp add: find_cells_def finds_two_def keep_mask_def class_names_def two_squares_red_def
        two_squares_def new_cell_def CellType_of_def add_red_chromosome_def)



lemma CellType_of_Inr:
  "CellType_of c = Inr t \<Longrightarrow> (t = EXPLODED \<longleftrightarrow> c = 0) \<and> (t = WHOLE \<longleftrightarrow> c = 1)"
  by (auto simp: CellType_of_def split: if_splits)

text \<open>
  Claim C9. When \<^verbatim>\<open>find_cells\<close> returns, the registry has one cell per detection, in order,
  and the cell is EXPLODED exactly when the detection's class id is 0 and WHOLE exactly when
  it is 1.
\<close>

theorem class_id_to_cell_type:
  assumes "find_cells predict mask_image names self confidence = Inr (counts, self')"
  shows "length (cells self') = length (detections (predict (image self) [0, 1] confidence)) \<and>
    (\<forall>i<length (cells self').
       (cell_type (cells self' ! i) = EXPLODED \<longleftrightarrow>
          snd (detections (predict (image self) [0, 1] confidence) ! i) = 0) \<and>
       (cell_type (cells self' ! i) = WHOLE \<longleftrightarrow>
          snd (detections (predict (image self) [0, 1] confidence) ! i) = 1))"
proof -
  let ?dets = "detections (predict (image self) [0, 1] confidence)"
  from find_cells_char[OF assms]
  have all2: "list_all2 (built_from mask_image (image self)) ?dets (cells self')" by blast
  then have len: "length (cells self') = length ?dets"
    by (simp add: list_all2_lengthD)
  have "(cell_type (cells self' ! i) = EXPLODED \<longleftrightarrow> snd (?dets ! i) = 0) \<and>
        (cell_type (cells self' ! i) = WHOLE \<longleftrightarrow> snd (?dets ! i) = 1)"
    if "i < length (cells self')" for i
  proof -
    from all2 that len have "built_from mask_image (image self) (?dets ! i) (cells self' ! i)"
      by (simp add: list_all2_nthD2)
    then have "CellType_of (snd (?dets ! i)) = Inr (cell_type (cells self' ! i))"
      by (simp add: built_from_def)
    then show ?thesis by (rule CellType_of_Inr)
  qed
  with len show ?thesis by blast
qed

theorem class_id_to_cell_type_witness:
  "find_cells finds_two keep_mask class_names two_squares_red (1 / 2) =
     Inr ((1, 1), two_squares_red\<lparr>cells := cells two_squares\<rparr>) \<and>
   detections (finds_two () [0, 1] (1 / 2)) = [(4, 1), (20, 0)] \<and>
   cell_type (cells two_squares ! 0) = WHOLE \<and>
   cell_type (cells two_squares ! 1) = EXPLODED"
proof -
  note main = class_id_to_cell_type[OF finds_two_run]
  have dets: "detections (finds_two () [0, 1] (1 / 2)) = [(4, 1), (20, 0)]"
    by (simp add: detections_def finds_two_def)
  have len: "0 < length (cells (two_squares_red\<lparr>cells := cells two_squares\<rparr>))"
    "1 < length (cells (two_squares_red\<lparr>cells := cells two_squares\<rparr>))"
    by (simp_all add: two_squares_def)
  from main[THEN conjunct2, rule_format, OF len(1)] dets
  have w: "cell_type (cells two_squares ! 0) = WHOLE" by simp
  from main[THEN conjunct2, rule_format, OF len(2)] dets
  have e: "cell_type (cells two_squares ! 1) = EXPLODED" by simp
  from finds_two_run dets w e show ?thesis by simp
qed

section \<open>Properties of the candidate extractor\<close>

















lemma candidates_unfold:
  assumes "shape img = [h, w]"
  shows "\<exists>morph labels n.
     morphology_gradient (cv2_threshold img 100 255) (3, 3) = Inr morph \<and>
     sk_label morph 0 1 = Inr (labels, n) \<and>
     shape labels = [h, w] \<and>
     get_chromosome_candidates img =
       Inr (map (centroid h w (data labels) (data labels)) [1..int n])"
proof -
  have sh: "shape (cv2_threshold img 100 255) = [h, w]"
    by (simp add: cv2_threshold_def assms)
  then obtain morph where m: "morphology_gradient (cv2_threshold img 100 255) (3, 3) = Inr morph"
    and msh: "shape morph = [h, w]"
    by (simp add: morphology_gradient_def)
  obtain ls n where f: "fold (label_step (data morph) h w 0 1) (positions h w) (replicate (h * w) 0, 0) = (ls, n)"
    by (cases "fold (label_step (data morph) h w 0 1) (positions h w) (replicate (h * w) 0, 0)")
  have l: "sk_label morph 0 1 = Inr (\<lparr>shape = [h, w], data = ls\<rparr>, n)"
    using f by (simp add: sk_label_def msh)
  have "get_chromosome_candidates img =
       Inr (map (centroid h w (data \<lparr>shape = [h, w], data = ls\<rparr>) (data \<lparr>shape = [h, w], data = ls\<rparr>)) [1..int n])"
    using l by (simp add: get_chromosome_candidates_def m center_of_mass_def)
  with m l show ?thesis by fastforce
qed






section \<open>Properties of chromosome detection\<close>

lemma spot_first_call:
  "detect_chromosomes no_blur square_contours square_distance spot_detector = Inr spot_detector_once"
  by code_simp

lemma spot_second_call:
  "detect_chromosomes no_blur square_contours square_distance spot_detector_once = Inr spot_detector_twice"
  by code_simp

lemma spot_totals:
  "total_chromosomes ''red'' (cells spot_detector_twice) = 2" "RedChromosome spot_detector_twice = 1"
  by code_simp+

lemma total_chromosomes_pass:
  assumes "filter_chromosomes fc ppt self cands ctype cl = Inr (accepted, self')"
      and "ctype = ''red'' \<or> ctype = ''green''"
  shows "total_chromosomes ctype (cells self') =
           total_chromosomes ctype (cells self) +
           length (filter (\<lambda>p. owner fc ppt cl (cells self) p \<noteq> None) cands)"
proof -
  let ?own = "owner fc ppt cl (cells self)"
  note ch = filter_chromosomes_char[OF assms(1)]
  from ch have len: "length (cells self') = length (cells self)" by blast
  have lists: "\<forall>j<length (cells self).
       chromosomes_of ctype (cells self' ! j) =
         chromosomes_of ctype (cells self ! j) @ filter (\<lambda>p. ?own p = Some j) cands"
  proof (intro allI impI)
    fix j assume j: "j < length (cells self)"
    with ch have "cells self' ! j =
       record_all ctype (filter (\<lambda>p. ?own p = Some j) cands) (cells self ! j)" by blast
    then show "chromosomes_of ctype (cells self' ! j) =
         chromosomes_of ctype (cells self ! j) @ filter (\<lambda>p. ?own p = Some j) cands"
      by (simp add: chromosomes_of_record_all[OF assms(2)])
  qed
  have bound: "\<forall>p\<in>set cands. \<forall>j. ?own p = Some j \<longrightarrow> j < length (cells self)"
    using owner_bound by blast
  have "total_chromosomes ctype (cells self') =
        (\<Sum>j<length (cells self). length (chromosomes_of ctype (cells self' ! j)))"
    by (simp add: total_chromosomes_nth len)
  also have "\<dots> = (\<Sum>j<length (cells self). length (chromosomes_of ctype (cells self ! j)) +
                     length (filter (\<lambda>p. ?own p = Some j) cands))"
    using lists by (intro sum.cong) auto
  also have "\<dots> = total_chromosomes ctype (cells self) +
                  (\<Sum>j<length (cells self). length (filter (\<lambda>p. ?own p = Some j) cands))"
    by (simp add: sum.distrib total_chromosomes_nth)
  finally show ?thesis by (simp add: sum_indicator_owner[OF bound])
qed

lemma total_chromosomes_other_pass:
  assumes "filter_chromosomes fc ppt self cands ctype cl = Inr (accepted, self')"
      and "other = ''red'' \<or> other = ''green''" and "ctype \<noteq> other"
  shows "total_chromosomes other (cells self') = total_chromosomes other (cells self)"
proof -
  note ch = filter_chromosomes_char[OF assms(1)]
  from ch have len: "length (cells self') = length (cells self)" by blast
  have "chromosomes_of other (cells self' ! j) = chromosomes_of other (cells self ! j)"
    if "j < length (cells self)" for j
  proof -
    from ch that have "cells self' ! j =
       record_all ctype (filter (\<lambda>p. owner fc ppt cl (cells self) p = Some j) cands) (cells self ! j)"
      by blast
    then show ?thesis using assms(2,3) by (auto simp: chromosomes_of_def record_all_def)
  qed
  then show ?thesis by (simp add: total_chromosomes_nth len)
qed

lemma detect_chromosomes_passes:
  assumes "detect_chromosomes G fc ppt self = Inr self'"
  shows "\<exists>red_c green_c acc_r acc_g s1.
      filter_chromosomes fc ppt (self\<lparr>RedChromosome := 0, GreenChromosome := 0\<rparr>) red_c ''red'' 1
        = Inr (acc_r, s1) \<and>
      filter_chromosomes fc ppt s1 green_c ''green'' 1 = Inr (acc_g, self')"
  using assms
  apply (auto simp: detect_chromosomes_def Let_def split: sum.splits prod.splits)
  apply blast
  done

lemma detect_chromosomes_resets:
  "detect_chromosomes G fc ppt (self\<lparr>RedChromosome := a, GreenChromosome := b\<rparr>) =
   detect_chromosomes G fc ppt self"
  by (simp add: detect_chromosomes_def Let_def cong: sum.case_cong)

lemma detect_chromosomes_counts:
  assumes "detect_chromosomes G fc ppt self = Inr self'"
  shows "int (total_chromosomes ''red'' (cells self')) =
           int (total_chromosomes ''red'' (cells self)) + RedChromosome self' \<and>
         int (total_chromosomes ''green'' (cells self')) =
           int (total_chromosomes ''green'' (cells self)) + GreenChromosome self'"
proof -
  from detect_chromosomes_passes[OF assms] obtain red_c green_c acc_r acc_g s1 where
    r: "filter_chromosomes fc ppt (self\<lparr>RedChromosome := 0, GreenChromosome := 0\<rparr>) red_c ''red'' 1
        = Inr (acc_r, s1)"
    and g: "filter_chromosomes fc ppt s1 green_c ''green'' 1 = Inr (acc_g, self')"
    by blast
  let ?s0 = "self\<lparr>RedChromosome := 0, GreenChromosome := 0\<rparr>"
  let ?nr = "length (filter (\<lambda>p. owner fc ppt 1 (cells ?s0) p \<noteq> None) red_c)"
  let ?ng = "length (filter (\<lambda>p. owner fc ppt 1 (cells s1) p \<noteq> None) green_c)"
  from filter_chromosomes_char[OF r]
  have c1: "(RedChromosome s1, GreenChromosome s1) = add_count ''red'' ?nr (RedChromosome ?s0, GreenChromosome ?s0)"
    by blast
  from filter_chromosomes_char[OF g]
  have c2: "(RedChromosome self', GreenChromosome self') = add_count ''green'' ?ng (RedChromosome s1, GreenChromosome s1)"
    by blast
  from c1 have s1c: "RedChromosome s1 = int ?nr" "GreenChromosome s1 = 0"
    by (simp_all add: add_count_def)
  from c2 s1c have fin: "RedChromosome self' = int ?nr" "GreenChromosome self' = int ?ng"
    by (simp_all add: add_count_def)
  have tr1: "total_chromosomes ''red'' (cells s1) = total_chromosomes ''red'' (cells ?s0) + ?nr"
    by (rule total_chromosomes_pass[OF r]) simp
  have tr2: "total_chromosomes ''red'' (cells self') = total_chromosomes ''red'' (cells s1)"
    by (rule total_chromosomes_other_pass[OF g]) simp_all
  have tg1: "total_chromosomes ''green'' (cells s1) = total_chromosomes ''green'' (cells ?s0)"
    by (rule total_chromosomes_other_pass[OF r]) simp_all
  have tg2: "total_chromosomes ''green'' (cells self') = total_chromosomes ''green'' (cells s1) + ?ng"
    by (rule total_chromosomes_pass[OF g]) simp
  from tr1 tr2 tg1 tg2 fin show ?thesis by simp
qed

text \<open>
  Claim C4, as amended. \<^verbatim>\<open>detect_chromosomes\<close> does not depend on the counters it finds: it
  sets both to zero before the assigner runs. When it returns, each counter is the number of
  points appended to the lists of its channel during the call, that is the sum of the
  list lengths after the call minus the sum before. It equals the sum itself when the
  lists were empty before the call, as on a registry that \<^verbatim>\<open>find_cells\<close> has just built.
\<close>

theorem counters_count_appended:
  "detect_chromosomes GaussianBlur findContours pointPolygonTest
       (self\<lparr>RedChromosome := a, GreenChromosome := b\<rparr>) =
     detect_chromosomes GaussianBlur findContours pointPolygonTest self \<and>
   (detect_chromosomes GaussianBlur findContours pointPolygonTest self = Inr self' \<longrightarrow>
      RedChromosome self' =
        int (total_chromosomes ''red'' (cells self')) - int (total_chromosomes ''red'' (cells self)) \<and>
      GreenChromosome self' =
        int (total_chromosomes ''green'' (cells self')) - int (total_chromosomes ''green'' (cells self)) \<and>
      ((\<forall>cell\<in>set (cells self). red_chromosomes cell = [] \<and> green_chromosomes cell = []) \<longrightarrow>
         RedChromosome self' = int (total_chromosomes ''red'' (cells self')) \<and>
         GreenChromosome self' = int (total_chromosomes ''green'' (cells self'))))"
proof (intro conjI impI)
  show "detect_chromosomes GaussianBlur findContours pointPolygonTest
       (self\<lparr>RedChromosome := a, GreenChromosome := b\<rparr>) =
     detect_chromosomes GaussianBlur findContours pointPolygonTest self"
    by (rule detect_chromosomes_resets)
next
  assume run: "detect_chromosomes GaussianBlur findContours pointPolygonTest self = Inr self'"
  note cnt = detect_chromosomes_counts[OF run]
  from cnt show "RedChromosome self' =
        int (total_chromosomes ''red'' (cells self')) - int (total_chromosomes ''red'' (cells self))"
    by simp
  from cnt show "GreenChromosome self' =
        int (total_chromosomes ''green'' (cells self')) - int (total_chromosomes ''green'' (cells self))"
    by simp
  assume fresh: "\<forall>cell\<in>set (cells self). red_chromosomes cell = [] \<and> green_chromosomes cell = []"
  then have "total_chromosomes ''red'' (cells self) = 0" "total_chromosomes ''green'' (cells self) = 0"
    by (simp_all add: total_chromosomes_def chromosomes_of_def)
  with cnt show "RedChromosome self' = int (total_chromosomes ''red'' (cells self'))"
    "GreenChromosome self' = int (total_chromosomes ''green'' (cells self'))"
    by simp_all
qed

theorem counters_count_appended_witness:
  "detect_chromosomes no_blur square_contours square_distance spot_detector = Inr spot_detector_once \<and>
   RedChromosome spot_detector_once = int (total_chromosomes ''red'' (cells spot_detector_once)) \<and>
   GreenChromosome spot_detector_once = int (total_chromosomes ''green'' (cells spot_detector_once)) \<and>
   RedChromosome spot_detector_once = 1"
proof -
  have fresh: "\<forall>cell\<in>set (cells spot_detector). red_chromosomes cell = [] \<and> green_chromosomes cell = []"
    by (simp add: spot_detector_def new_cell_def)
  from counters_count_appended[where GaussianBlur = no_blur and findContours = square_contours
      and pointPolygonTest = square_distance and self = spot_detector and self' = spot_detector_once
      and a = 0 and b = 0] spot_first_call fresh
  have "RedChromosome spot_detector_once = int (total_chromosomes ''red'' (cells spot_detector_once)) \<and>
        GreenChromosome spot_detector_once = int (total_chromosomes ''green'' (cells spot_detector_once))"
    by blast
  moreover have "RedChromosome spot_detector_once = 1"
    by (simp add: spot_detector_once_def)
  ultimately show ?thesis using spot_first_call by simp
qed

text \<open>
  The claim as stated fails on a second call without rebuilding the registry: the lists
  keep the points of the first call, the counters do not. After the second call on the
  image \<open>red_spot\<close> the red counter is 1 and the red lists hold 2 points.
\<close>

theorem counter_differs_on_second_call:
  "detect_chromosomes no_blur square_contours square_distance spot_detector = Inr spot_detector_once \<and>
   detect_chromosomes no_blur square_contours square_distance spot_detector_once
     = Inr spot_detector_twice \<and>
   RedChromosome spot_detector_twice = 1 \<and>
   total_chromosomes ''red'' (cells spot_detector_twice) = 2 \<and>
   RedChromosome spot_detector_twice \<noteq> int (total_chromosomes ''red'' (cells spot_detector_twice))"
  using spot_first_call spot_second_call spot_totals by simp

lemma filter_loop_empty:
  "filter_loop fc ppt ctype cl idx cands acc [] ctr = Inr (acc, [], ctr)"
  by (induction cands arbitrary: idx acc) simp_all

lemma filter_chromosomes_empty:
  assumes "cells self = []"
  shows "filter_chromosomes fc ppt self cands ctype cl = Inr (replicate (length cands) False, self)"
  using assms by (simp add: filter_chromosomes_def filter_loop_empty)

lemma last_axis_shape3:
  assumes "shape a = [h, w, ch]" "k < ch"
  shows "\<exists>c. last_axis k a = Inr c \<and> shape c = [h, w]"
  using assms by (simp add: last_axis_def)

lemma candidates_return:
  assumes "shape img = [h, w]"
  shows "\<exists>points. get_chromosome_candidates img = Inr points"
  using candidates_unfold[OF assms] by blast

lemma detect_chromosomes_empty:
  assumes "cells self = []" "shape (image self) = [h, w, ch]" "2 \<le> ch"
  shows "detect_chromosomes G fc ppt self = Inr (self\<lparr>RedChromosome := 0, GreenChromosome := 0\<rparr>)"
proof -
  let ?u = "unsharp_mask G (image self) (5, 5) 5 5 100"
  have sh: "shape ?u = [h, w, ch]"
    by (simp add: unsharp_mask_unfold assms(2))
  from last_axis_shape3[OF sh, of 0] assms(3) obtain rc where
    rc: "last_axis 0 ?u = Inr rc" "shape rc = [h, w]" by auto
  from last_axis_shape3[OF sh, of 1] assms(3) obtain gc where
    gc: "last_axis 1 ?u = Inr gc" "shape gc = [h, w]" by auto
  from candidates_return[OF rc(2)] obtain rp where rp: "get_chromosome_candidates rc = Inr rp" by blast
  from candidates_return[OF gc(2)] obtain gp where gp: "get_chromosome_candidates gc = Inr gp" by blast
  let ?s0 = "self\<lparr>RedChromosome := 0, GreenChromosome := 0\<rparr>"
  have e: "cells ?s0 = []" using assms(1) by simp
  show ?thesis
    using rc(1) gc(1) rp gp
    by (simp add: detect_chromosomes_def Let_def filter_chromosomes_empty[OF e]
          filter_chromosomes_empty[OF assms(1)])
qed

text \<open>
  Claim C10. With an empty registry the assigner returns without error, accepts no
  candidate and leaves the detector, its counters included, as it was; and
  \<^verbatim>\<open>detect_chromosomes\<close> on an image of at least two channels returns without error with an
  empty registry and both counters zero.
\<close>

theorem empty_registry_accepts_nothing:
  "(cells self = [] \<longrightarrow>
      filter_chromosomes findContours pointPolygonTest self candidates chromosome_type closeness
        = Inr (replicate (length candidates) False, self)) \<and>
   (cells self = [] \<and> shape (image self) = [h, w, ch] \<and> 2 \<le> ch \<longrightarrow>
      detect_chromosomes GaussianBlur findContours pointPolygonTest self
        = Inr (self\<lparr>RedChromosome := 0, GreenChromosome := 0\<rparr>))"
  using filter_chromosomes_empty[of self findContours pointPolygonTest candidates chromosome_type closeness]
    detect_chromosomes_empty[of self h w ch GaussianBlur findContours pointPolygonTest]
  by blast

theorem empty_registry_accepts_nothing_witness:
  "cells (spot_detector\<lparr>cells := []\<rparr>) = [] \<and>
   shape (image (spot_detector\<lparr>cells := []\<rparr>)) = [5, 5, 3] \<and>
   filter_chromosomes square_contours square_distance (spot_detector\<lparr>cells := []\<rparr>)
       [(2, 2), (1, 3)] ''red'' 1
     = Inr ([False, False], spot_detector\<lparr>cells := []\<rparr>) \<and>
   detect_chromosomes no_blur square_contours square_distance (spot_detector\<lparr>cells := []\<rparr>)
     = Inr (spot_detector\<lparr>cells := []\<rparr>)"
proof -
  have c: "cells (spot_detector\<lparr>cells := []\<rparr>) = []" by simp
  have sh: "shape (image (spot_detector\<lparr>cells := []\<rparr>)) = [5, 5, 3]"
    by (simp add: spot_detector_def red_spot_def)
  note main = empty_registry_accepts_nothing[where self = "spot_detector\<lparr>cells := []\<rparr>"
      and findContours = square_contours and pointPolygonTest = square_distance
      and candidates = "[(2, 2), (1, 3)]" and chromosome_type = "''red''" and closeness = 1
      and h = 5 and w = 5 and ch = 3 and GaussianBlur = no_blur]
  from main c have f: "filter_chromosomes square_contours square_distance (spot_detector\<lparr>cells := []\<rparr>)
       [(2, 2), (1, 3)] ''red'' 1
     = Inr (replicate (length [(2, 2), (1, 3) :: point]) False, spot_detector\<lparr>cells := []\<rparr>)"
    by blast
  from main c sh have "detect_chromosomes no_blur square_contours square_distance (spot_detector\<lparr>cells := []\<rparr>)
     = Inr (spot_detector\<lparr>cells := [], RedChromosome := 0, GreenChromosome := 0\<rparr>)"
    by simp
  then have d: "detect_chromosomes no_blur square_contours square_distance (spot_detector\<lparr>cells := []\<rparr>)
     = Inr (spot_detector\<lparr>cells := []\<rparr>)"
    by (simp add: spot_detector_def)
  from c sh f d show ?thesis by simp
qed

end
